theory Spec2Isabelle
  imports Complex_Main "HOL-Library.Signed_Division" "HOL-Library.Multiset"
begin

section \<open>Pitch statistics of \<open>speech.cpp\<close>\<close>

text \<open>
  The four reductions \<open>getPitch1\<close> .. \<open>getPitch4\<close> take a pointer \<open>dat\<close> to an array of
  \<open>double\<close> and an \<open>int\<close> length. In the embedding
  \<^item> the array is a \<open>real list\<close>, whose length is the allocated size; a finite
    \<open>double\<close> is the \<open>real\<close> it denotes. \<open>getPitch1\<close>, \<open>getPitch3\<close> and
    \<open>getPitch4\<close> compute in exact arithmetic: their claims are about which frames are
    summed, which denominators divide and which way the difference is taken.
    \<open>getPitch2\<close> computes in rounded arithmetic (below);
  \<^item> \<open>int\<close> is \<open>int\<close>; the only integer arithmetic is \<open>i++\<close> below a bound,
    \<open>dat_length / 2\<close> and \<open>dat_length - 5\<close>, none of which leaves the 32-bit range for a
    length that is an array size; \<open>/\<close> on \<open>int\<close> truncates towards zero (\<open>sdiv\<close>);
  \<^item> every read \<open>dat[i]\<close> is checked against the array bounds and every division
    against a zero denominator: where C++ leaves the behaviour undefined (or IEEE 754
    produces NaN or an infinity), the model returns a \<open>fault\<close>.
\<close>

datatype fault = DivByZero | OutOfBounds | DomainError | KeyMissing

definition at_index :: "real list \<Rightarrow> int \<Rightarrow> fault + real" where
  \<comment> \<open>the read \<open>dat[i]\<close>\<close>
  "at_index dat i =
     (if 0 \<le> i \<and> i < int (length dat) then Inr (dat ! nat i) else Inl OutOfBounds)"

definition fdiv :: "real \<Rightarrow> real \<Rightarrow> fault + real" where
  \<comment> \<open>the division \<open>x / d\<close> on \<open>double\<close>\<close>
  "fdiv x d = (if d = 0 then Inl DivByZero else Inr (x / d))"

definition fsqrt :: "real \<Rightarrow> fault + real" where
  \<comment> \<open>\<open>std::sqrt\<close>: a domain error (NaN) below zero\<close>
  "fsqrt x = (if x < 0 then Inl DomainError else Inr (sqrt x))"

text \<open>
  \<open>for (int i = first; i < stop; i++) { acc = body(acc, dat[i]); }\<close>: the counted loops
  of \<open>getPitch1\<close>, \<open>getPitch3\<close> and \<open>getPitch4\<close>, which differ in their bodies only.
\<close>

function for_loop ::
  "(real \<Rightarrow> real \<Rightarrow> real) \<Rightarrow> real list \<Rightarrow> int \<Rightarrow> int \<Rightarrow> real \<Rightarrow> fault + real" where
  "for_loop body dat i stop acc =
     (if i < stop then
        (case at_index dat i of
           Inl e \<Rightarrow> Inl e
         | Inr v \<Rightarrow> for_loop body dat (i + 1) stop (body acc v))
      else Inr acc)"
  by pat_completeness auto
termination
  by (relation "measure (\<lambda>(body, dat, i, stop, acc). nat (stop - i))") auto

declare for_loop.simps [simp del]

text \<open>
  \<open>std::for_each(dat + i, dat + stop, f)\<close>: the iterator advances until it \<^emph>\<open>equals\<close>
  \<open>dat + stop\<close>. The checked read stops a walk that has left the array.
\<close>

function for_each ::
  "(real \<Rightarrow> real \<Rightarrow> real) \<Rightarrow> real list \<Rightarrow> int \<Rightarrow> int \<Rightarrow> real \<Rightarrow> fault + real" where
  "for_each f dat i stop acc =
     (if i \<noteq> stop then
        (case at_index dat i of
           Inl e \<Rightarrow> Inl e
         | Inr each \<Rightarrow> for_each f dat (i + 1) stop (f acc each))
      else Inr acc)"
  by pat_completeness auto
termination
  by (relation "measure (\<lambda>(f, dat, i, stop, acc). length dat - nat i)")
     (auto simp: at_index_def split: if_splits)

declare for_each.simps [simp del]

definition getPitch1 :: "real list \<Rightarrow> int \<Rightarrow> fault + real" where
  "getPitch1 dat dat_length =
     (case for_loop (\<lambda>s v. if v = 0 then s else s + v) dat 0 dat_length 0 of
        Inl e \<Rightarrow> Inl e
      | Inr s \<Rightarrow> fdiv s (real_of_int dat_length))"

text \<open>
  \<open>getPitch2\<close> is the one statistic whose claim is an algebraic law (invariance under
  reordering), and such a law separates exact arithmetic from the arithmetic of the
  program. Its model therefore rounds the result of every operation as IEEE 754 binary64
  does in round-to-nearest, ties-to-even: \<open>rd x\<close> is the \<open>double\<close> nearest to \<open>x\<close>.
  \<open>expo\<close> is the binary exponent, from \<open>-1022\<close> (the subnormal range shares the
  spacing of the lowest binade) up to \<open>1024\<close>; at and above \<open>2 ^ 1024\<close> the
  program has an infinity, which is outside the model. \<open>std::sqrt\<close> is correctly
  rounded, and so is \<open>std::pow(x, 2)\<close> taken to be (it is the rounded product
  \<open>x * x\<close>). The conversion of the \<open>int\<close> length to \<open>double\<close> is exact.
\<close>

function up :: "real \<Rightarrow> int \<Rightarrow> int" where
  "up x e = (if 2 \<le> x \<and> e < 1024 then up (x / 2) (e + 1) else e)"
  by pat_completeness auto
termination
  by (relation "measure (\<lambda>(x, e). nat (1024 - e))") auto

declare up.simps [simp del]

function down :: "real \<Rightarrow> int \<Rightarrow> int" where
  "down x e = (if x < 1 \<and> - 1022 < e then down (2 * x) (e - 1) else e)"
  by pat_completeness auto
termination
  by (relation "measure (\<lambda>(x, e). nat (e + 1022))") auto

declare down.simps [simp del]

definition expo :: "real \<Rightarrow> int" where
  "expo x = (if 2 \<le> x then up x 0 else down x 0)"

definition round_even :: "real \<Rightarrow> int" where
  "round_even r =
     (let f = \<lfloor>r\<rfloor>; d = r - of_int f in
      if d < 1 / 2 then f else if 1 / 2 < d then f + 1 else if even f then f else f + 1)"

definition rd :: "real \<Rightarrow> real" where
  "rd x =
     (if x = 0 then 0
      else let ulp = 2 powi (expo \<bar>x\<bar> - 52) in
           sgn x * (of_int (round_even (\<bar>x\<bar> / ulp)) * ulp))"

text \<open>
  \<open>getPitch2\<close>, with the rounding of each arithmetic result as the parameter \<open>rnd\<close>:
  \<open>rd\<close> for the program, and the identity for the same computation in exact arithmetic.
\<close>

definition getPitch2_in :: "(real \<Rightarrow> real) \<Rightarrow> real list \<Rightarrow> int \<Rightarrow> fault + real" where
  "getPitch2_in rnd dat dat_length =
     (case for_each (\<lambda>s each. rnd (s + each)) dat 0 dat_length 0 of
        Inl e \<Rightarrow> Inl e
      | Inr s \<Rightarrow>
     (case fdiv s (real_of_int dat_length) of
        Inl e \<Rightarrow> Inl e
      | Inr m \<Rightarrow>
     (let mean = rnd m in
      case for_each (\<lambda>sd each. rnd (sd + rnd ((rnd (each - mean)) ^ 2))) dat 0 dat_length 0 of
        Inl e \<Rightarrow> Inl e
      | Inr sd \<Rightarrow>
     (case fdiv sd (real_of_int dat_length) of
        Inl e \<Rightarrow> Inl e
      | Inr q \<Rightarrow>
     (case fsqrt (rnd q) of
        Inl e \<Rightarrow> Inl e
      | Inr r \<Rightarrow> Inr (rnd r))))))"

definition getPitch2 :: "real list \<Rightarrow> int \<Rightarrow> fault + real" where
  "getPitch2 dat dat_length = getPitch2_in rd dat dat_length"

definition getPitch3 :: "real list \<Rightarrow> int \<Rightarrow> fault + real" where
  "getPitch3 dat dat_length =
     (case for_loop (\<lambda>sum1 v. sum1 + v) dat 0 (dat_length sdiv 2) 0 of
        Inl e \<Rightarrow> Inl e
      | Inr s1 \<Rightarrow>
     (case fdiv s1 (real_of_int (dat_length sdiv 2)) of
        Inl e \<Rightarrow> Inl e
      | Inr sum1 \<Rightarrow>
     (case for_loop (\<lambda>sum2 v. sum2 + v) dat (dat_length sdiv 2) dat_length 0 of
        Inl e \<Rightarrow> Inl e
      | Inr s2 \<Rightarrow>
     (case fdiv s2 (real_of_int (dat_length sdiv 2)) of
        Inl e \<Rightarrow> Inl e
      | Inr sum2 \<Rightarrow> Inr (sum2 - sum1)))))"

definition getPitch4 :: "real list \<Rightarrow> int \<Rightarrow> fault + real" where
  "getPitch4 dat dat_length =
     (case for_loop (\<lambda>sum1 v. sum1 + v) dat 0 (dat_length - 5) 0 of
        Inl e \<Rightarrow> Inl e
      | Inr s1 \<Rightarrow>
     (case fdiv s1 (real_of_int (dat_length - 5)) of
        Inl e \<Rightarrow> Inl e
      | Inr sum1 \<Rightarrow>
     (case for_loop (\<lambda>sum2 v. v) dat (dat_length - 5) dat_length 0 of
        Inl e \<Rightarrow> Inl e
      | Inr s2 \<Rightarrow>
     (case fdiv s2 5 of
        Inl e \<Rightarrow> Inl e
      | Inr sum2 \<Rightarrow> Inr (sum2 - sum1)))))"

section \<open>The analysis pipeline\<close>

text \<open>
  A pitch field of the result object holds a C++ \<open>double\<close>: a finite number, an
  infinity or NaN.
\<close>

datatype double = Finite real | PosInf | NegInf | NaN

text \<open>
  Modelled from the spec: the process-wide result object \<open>jsonResult\<close>, which
  \<open>speech.cpp\<close> mutates through \<open>jsonResult.at(key) = value\<close> and whose declaration
  (\<open>jsonString.hpp\<close>) is not among the sources. The spec's data model gives it a status
  code, a human-readable comment and four numeric pitch descriptors, and these are the
  six keys the code writes.
\<close>

record jsonResult =
  status :: int
  comment :: string
  pitch1 :: double
  pitch2 :: double
  pitch3 :: double
  pitch4 :: double

text \<open>
  The error catalog \<open>errCode\<close>, a \<open>std::map<int, std::string>\<close>; the key written
  \<open>0000\<close> is the number 0. \<open>errCode.at(k)\<close> throws \<open>std::out_of_range\<close>, which no
  handler of the program catches, when the key is absent.
\<close>

definition errCode :: "(int \<times> string) list" where
  "errCode =
     [(0, ''success''),
      (1000, ''Error : file not found''),
      (1001, ''Error : file cannot be read''),
      (1002, ''Error : file is not on correct format''),
      (2000, ''Error : no speech detected''),
      (2001, ''Error : cannot calculate pitch 1. Reason : ...''),
      (2002, ''Error : cannot calculate pitch 2. Reason : ...''),
      (2003, ''Error : cannot calculate pitch 3. Reason : ...''),
      (2004, ''Error : cannot calculate pitch 4. Reason : ...''),
      (3000, ''Error : Memory Allocation Error'')]"

definition errCode_at :: "int \<Rightarrow> fault + string" where
  "errCode_at k = (case map_of errCode k of None \<Rightarrow> Inl KeyMissing | Some v \<Rightarrow> Inr v)"

text \<open>
  What the program takes from outside: the file system, the allocator, the audio reader
  (\<open>audioio.h\<close>), the WORLD library (\<open>harvest.h\<close>), the JSON printer and the memory
  next to the frame array (\<open>stray\<close>, below). Each is a parameter; nothing is assumed about the values they return. Only the allocations that
  the code guards with a handler for \<open>std::bad_alloc\<close> can fail in the model; an
  array \<open>new\<close> of negative size throws \<open>std::bad_array_new_length\<close>, which that
  handler catches too. The text of \<open>e.what()\<close> is the parameter \<open>bad_alloc_what\<close>.
\<close>

record world =
  fopen_ok :: "string \<Rightarrow> bool"
  GetAudioLength :: "string \<Rightarrow> int"
  wav_alloc_ok :: "string \<Rightarrow> bool"
  f0_alloc_ok :: "string \<Rightarrow> bool"
  bad_alloc_what :: string
  wavread :: "string \<Rightarrow> int \<times> int \<times> (nat \<Rightarrow> real)"
  frame_period :: real
  GetSamplesForHarvest :: "int \<Rightarrow> int \<Rightarrow> real \<Rightarrow> int"
  Harvest :: "real list \<Rightarrow> int \<Rightarrow> int \<Rightarrow> real \<Rightarrow> nat \<Rightarrow> real \<times> real"
  json_dump :: "jsonResult \<Rightarrow> string"
  stray :: "string \<Rightarrow> double"

text \<open>
  A constructor either returns the object, or throws an \<open>int\<close> after it has written
  the result object, or runs into a fault.
\<close>

datatype 'a outcome = Fault fault | Throw int jsonResult | Ret 'a jsonResult

record wavFile =
  fileName :: string
  fs :: int
  nbit :: int
  length_wav :: int
  buf :: "real list"

definition wavFile_ctor :: "world \<Rightarrow> string \<Rightarrow> jsonResult \<Rightarrow> wavFile outcome" where
  "wavFile_ctor w file js =
     (let len = GetAudioLength w file in
      if len = 0 \<or> len = - 1 then
        (case errCode_at 1002 of
           Inl f \<Rightarrow> Fault f
         | Inr c \<Rightarrow> Throw 1002 (js\<lparr>status := 1002, comment := c\<rparr>))
      else if len < 0 \<or> \<not> wav_alloc_ok w file then
        (case errCode_at 3000 of
           Inl f \<Rightarrow> Fault f
         | Inr c \<Rightarrow> Throw 3000 (js\<lparr>status := 3000, comment := c @ bad_alloc_what w\<rparr>))
      else
        (case wavread w file of
           (rate, bits, samples) \<Rightarrow>
             Ret \<lparr>fileName = file, fs = rate, nbit = bits, length_wav = len,
                  buf = map samples [0..<nat len]\<rparr> js))"

record f0_rec =
  f0 :: "real list"
  temporalPossition :: "real list"
  numOfFrame :: int

definition f0_ctor :: "world \<Rightarrow> string \<Rightarrow> int \<Rightarrow> jsonResult \<Rightarrow> f0_rec outcome" where
  "f0_ctor w file n js =
     (if n < 0 \<or> \<not> f0_alloc_ok w file then
        (case errCode_at 3000 of
           Inl f \<Rightarrow> Fault f
         | Inr c \<Rightarrow> Throw 3000 (js\<lparr>status := 3000, comment := c @ bad_alloc_what w\<rparr>))
      else
        Ret \<lparr>f0 = replicate (nat n) 0, temporalPossition = replicate (nat n) 0,
             numOfFrame = n\<rparr> js)"

definition run_Harvest :: "world \<Rightarrow> wavFile \<Rightarrow> f0_rec \<Rightarrow> f0_rec" where
  \<comment> \<open>\<open>Harvest\<close> fills both arrays, one entry for each frame\<close>
  "run_Harvest w wav f =
     (let out = Harvest w (buf wav) (length_wav wav) (fs wav) (frame_period w) in
      f\<lparr>f0 := map (\<lambda>i. snd (out i)) [0..<length (f0 f)],
        temporalPossition := map (\<lambda>i. fst (out i)) [0..<length (temporalPossition f)]\<rparr>)"

text \<open>
  The four statistics run as \<open>std::async\<close> tasks that only read the frame array, and
  \<open>__PitchAnalyzer\<close> joins them in order before it writes the result object; the
  model calls them in that order. Nothing in the program traps where a statistic of the
  model reports a fault, so the call goes on and stores a \<open>double\<close>:
  \<^item> a zero denominator: in each of the four functions the bound of the loop that
    computes the numerator is then zero too (\<open>zero_division_numerator\<close> below), so the
    numerator is \<open>0.0\<close>, the quotient \<open>0.0 / 0\<close> is NaN in IEEE 754 arithmetic, and
    every later operation of the function keeps a NaN; so does \<open>std::sqrt\<close> below
    zero;
  \<^item> a read outside the frame array: undefined behaviour in C++; on the machine
    it is a read of the neighbouring memory, and the statistic ends with a value that
    the program does not determine, the parameter \<open>stray\<close>.
\<close>

fun ieee_value :: "double \<Rightarrow> fault + real \<Rightarrow> double" where
  "ieee_value u (Inr v) = Finite v"
| "ieee_value u (Inl DivByZero) = NaN"
| "ieee_value u (Inl DomainError) = NaN"
| "ieee_value u (Inl OutOfBounds) = u"
| "ieee_value u (Inl KeyMissing) = u"

definition internal_PitchAnalyzer ::
  "world \<Rightarrow> string \<Rightarrow> jsonResult \<Rightarrow> fault + (int \<times> jsonResult)" where
  \<comment> \<open>\<open>__PitchAnalyzer\<close>\<close>
  "internal_PitchAnalyzer w file js =
     (if \<not> fopen_ok w file then
        (case errCode_at 1000 of
           Inl f \<Rightarrow> Inl f
         | Inr c \<Rightarrow> Inr (1000, js\<lparr>status := 1000, comment := c\<rparr>))
      else
        (case wavFile_ctor w file js of
           Fault f \<Rightarrow> Inl f
         | Throw e js' \<Rightarrow> Inr (e, js')
         | Ret wav js1 \<Rightarrow>
        (case f0_ctor w file
                (GetSamplesForHarvest w (fs wav) (length_wav wav) (frame_period w)) js1 of
           Fault f \<Rightarrow> Inl f
         | Throw e js' \<Rightarrow> Inr (e, js')
         | Ret f js2 \<Rightarrow>
        (let f' = run_Harvest w wav f;
             ret1 = ieee_value (stray w file) (getPitch1 (f0 f') (numOfFrame f'));
             ret2 = ieee_value (stray w file) (getPitch2 (f0 f') (numOfFrame f'));
             ret3 = ieee_value (stray w file) (getPitch3 (f0 f') (numOfFrame f'));
             ret4 = ieee_value (stray w file) (getPitch4 (f0 f') (numOfFrame f'))
         in case errCode_at 0 of
              Inl e \<Rightarrow> Inl e
            | Inr c \<Rightarrow>
                Inr (0, js2\<lparr>pitch1 := ret1, pitch2 := ret2, pitch3 := ret3, pitch4 := ret4,
                           comment := c\<rparr>)))))"

text \<open>
  \<open>PitchAnalyzer2\<close> returns a \<open>char *\<close>. A pointer is null or the address of a buffer;
  the model carries the buffer's content in place of the address. \<open>new char[n]{}\<close>
  gives \<open>n\<close> zero bytes, and \<open>x.copy(dst, cnt, 0)\<close> overwrites the first
  \<open>min cnt (length x)\<close> of them.
\<close>

datatype cptr = Null | Ptr string

definition string_copy :: "string \<Rightarrow> string \<Rightarrow> nat \<Rightarrow> fault + string" where
  "string_copy x dst cnt =
     (let n = min cnt (length x) in
      if n \<le> length dst then Inr (take n x @ drop n dst) else Inl OutOfBounds)"

definition PitchAnalyzer ::
  "world \<Rightarrow> string \<Rightarrow> string \<Rightarrow> jsonResult \<Rightarrow> fault + (int \<times> string \<times> jsonResult)" where
  "PitchAnalyzer w file dst js =
     (case internal_PitchAnalyzer w file js of
        Inl f \<Rightarrow> Inl f
      | Inr (err, js') \<Rightarrow>
          (let x = json_dump w js' in
           case string_copy x dst (length x + 1) of
             Inl f \<Rightarrow> Inl f
           | Inr dst' \<Rightarrow> Inr (if err = 0 then 0 else err, dst', js')))"

definition PitchAnalyzer2 ::
  "world \<Rightarrow> string \<Rightarrow> jsonResult \<Rightarrow> fault + (cptr \<times> jsonResult)" where
  "PitchAnalyzer2 w file js =
     (case internal_PitchAnalyzer w file js of
        Inl f \<Rightarrow> Inl f
      | Inr (err, js') \<Rightarrow>
          (let x = json_dump w js' in
           case string_copy x (replicate (length x + 1) (CHR 0x00)) (length x) of
             Inl f \<Rightarrow> Inl f
           | Inr json_return \<Rightarrow> Inr (Ptr json_return, js')))"

text \<open>
  The frame count that \<open>__PitchAnalyzer\<close> hands to the constructor of \<open>_f0\<close> and to
  the four statistics, and the frame array that \<open>Harvest\<close> has filled, for a file that
  was opened and read.
\<close>

definition frames_of :: "world \<Rightarrow> string \<Rightarrow> int" where
  "frames_of w file =
     GetSamplesForHarvest w (fst (wavread w file)) (GetAudioLength w file) (frame_period w)"

definition f0_of :: "world \<Rightarrow> string \<Rightarrow> real list" where
  "f0_of w file =
     (case wavread w file of
        (rate, bits, samples) \<Rightarrow>
          map (\<lambda>i. snd (Harvest w (map samples [0..<nat (GetAudioLength w file)])
                              (GetAudioLength w file) rate (frame_period w) i))
            [0..<nat (frames_of w file)])"

text \<open>
  A concrete world for evaluating the pipeline: the only file that opens is
  \<open>ok.wav\<close>, 400 samples at 16 kHz; the frame count is the one of WORLD's
  \<open>GetSamplesForHarvest\<close>, here 6; every frame is voiced at 100 Hz.
\<close>

definition example_world :: world where
  "example_world =
     \<lparr>fopen_ok = (\<lambda>file. file = ''ok.wav''),
      GetAudioLength = (\<lambda>file. 400),
      wav_alloc_ok = (\<lambda>file. True),
      f0_alloc_ok = (\<lambda>file. True),
      bad_alloc_what = ''std::bad_alloc'',
      wavread = (\<lambda>file. (16000, 16, \<lambda>i. 0)),
      frame_period = 5,
      GetSamplesForHarvest =
        (\<lambda>rate len period. \<lfloor>1000 * real_of_int len / real_of_int rate / period\<rfloor> + 1),
      Harvest = (\<lambda>x len rate period i. (real i * period / 1000, 100)),
      json_dump = (\<lambda>js. ''{}''),
      stray = (\<lambda>file. NaN)\<rparr>"

section \<open>The loops compute folds\<close>

lemma for_loop_foldl:
  "0 \<le> i \<Longrightarrow> stop \<le> int (length dat) \<Longrightarrow>
   for_loop body dat i stop acc = Inr (foldl body acc (take (nat (stop - i)) (drop (nat i) dat)))"
proof (induction body dat i stop acc rule: for_loop.induct)
  case (1 body dat i stop acc)
  show ?case
  proof (cases "i < stop")
    case False
    then show ?thesis by (simp add: for_loop.simps)
  next
    case True
    with 1(2,3) have inb: "nat i < length dat" by linarith
    have rd: "at_index dat i = Inr (dat ! nat i)"
      using 1(2) inb by (simp add: at_index_def)
    have step: "take (nat (stop - i)) (drop (nat i) dat)
          = dat ! nat i # take (nat (stop - (i + 1))) (drop (nat (i + 1)) dat)"
    proof -
      have "nat (stop - i) = Suc (nat (stop - (i + 1)))" using True by linarith
      moreover have "drop (nat i) dat = dat ! nat i # drop (nat (i + 1)) dat"
        using inb 1(2) by (simp add: Cons_nth_drop_Suc nat_add_distrib)
      ultimately show ?thesis by simp
    qed
    have "for_loop body dat i stop acc = for_loop body dat (i + 1) stop (body acc (dat ! nat i))"
      using True rd by (subst for_loop.simps) simp
    also have "\<dots> = Inr (foldl body (body acc (dat ! nat i))
                       (take (nat (stop - (i + 1))) (drop (nat (i + 1)) dat)))"
      using 1(1)[OF True rd] 1(2,3) by simp
    finally show ?thesis by (simp only: step foldl_Cons)
  qed
qed

lemma for_loop_fault: "for_loop body dat i stop acc = Inl e \<Longrightarrow> e = OutOfBounds"
proof (induction body dat i stop acc rule: for_loop.induct)
  case (1 body dat i stop acc)
  show ?case
  proof (cases "i < stop")
    case False
    with 1(2) show ?thesis by (simp add: for_loop.simps)
  next
    case True
    show ?thesis
    proof (cases "at_index dat i")
      case (Inl e')
      with True 1(2) have "e = e'" by (subst (asm) for_loop.simps) simp
      with Inl show ?thesis by (simp add: at_index_def split: if_splits)
    next
      case (Inr v)
      with True 1(2) have "for_loop body dat (i + 1) stop (body acc v) = Inl e"
        by (subst (asm) for_loop.simps) simp
      with 1(1)[OF True Inr] show ?thesis .
    qed
  qed
qed

lemma for_loop_negative_start:
  "i < 0 \<Longrightarrow> i < stop \<Longrightarrow> for_loop body dat i stop acc = Inl OutOfBounds"
  by (subst for_loop.simps) (simp add: at_index_def)

lemma for_each_foldl:
  "0 \<le> i \<Longrightarrow> i \<le> stop \<Longrightarrow> stop \<le> int (length dat) \<Longrightarrow>
   for_each f dat i stop acc = Inr (foldl f acc (take (nat (stop - i)) (drop (nat i) dat)))"
proof (induction f dat i stop acc rule: for_each.induct)
  case (1 f dat i stop acc)
  show ?case
  proof (cases "i \<noteq> stop")
    case False
    then show ?thesis by (simp add: for_each.simps)
  next
    case True
    with 1(2,3,4) have inb: "nat i < length dat" and lt: "i < stop" by linarith+
    have rd: "at_index dat i = Inr (dat ! nat i)"
      using 1(2) inb by (simp add: at_index_def)
    have step: "take (nat (stop - i)) (drop (nat i) dat)
          = dat ! nat i # take (nat (stop - (i + 1))) (drop (nat (i + 1)) dat)"
    proof -
      have "nat (stop - i) = Suc (nat (stop - (i + 1)))" using lt by linarith
      moreover have "drop (nat i) dat = dat ! nat i # drop (nat (i + 1)) dat"
        using inb 1(2) by (simp add: Cons_nth_drop_Suc nat_add_distrib)
      ultimately show ?thesis by simp
    qed
    have "for_each f dat i stop acc = for_each f dat (i + 1) stop (f acc (dat ! nat i))"
      using True rd by (subst for_each.simps) simp
    also have "\<dots> = Inr (foldl f (f acc (dat ! nat i))
                       (take (nat (stop - (i + 1))) (drop (nat (i + 1)) dat)))"
      using 1(1)[OF True rd] 1(2,4) lt by simp
    finally show ?thesis by (simp only: step foldl_Cons)
  qed
qed

lemma foldl_plus: "foldl (\<lambda>s v. s + v) acc xs = acc + sum_list (xs :: real list)"
  by (induction xs arbitrary: acc) simp_all

lemma foldl_skip_zero:
  "foldl (\<lambda>s v. if v = 0 then s else s + v) acc xs
     = acc + sum_list (filter (\<lambda>v. v \<noteq> 0) (xs :: real list))"
  by (induction xs arbitrary: acc) simp_all

lemma foldl_assign: "xs \<noteq> [] \<Longrightarrow> foldl (\<lambda>s v. v) acc xs = last (xs :: real list)"
  by (induction xs arbitrary: acc) auto

lemma foldl_squares:
  "foldl (\<lambda>sd each. sd + (each - m) ^ 2) acc xs
     = acc + sum_list (map (\<lambda>x. (x - m) ^ 2) (xs :: real list))"
  by (induction xs arbitrary: acc) simp_all

lemma getPitch1_value:
  assumes "dat \<noteq> []"
  shows "getPitch1 dat (int (length dat))
           = Inr (sum_list (filter (\<lambda>v. v \<noteq> 0) dat) / real (length dat))"
  using assms by (simp add: getPitch1_def for_loop_foldl foldl_skip_zero fdiv_def)

lemma half_int: "int n sdiv 2 = int (n div 2)"
  by (cases "n = 0") (simp_all add: signed_divide_int_def zdiv_int)

lemma getPitch3_value:
  assumes "2 \<le> length dat"
  shows "getPitch3 dat (int (length dat))
           = Inr (sum_list (drop (length dat div 2) dat) / real (length dat div 2)
                  - sum_list (take (length dat div 2) dat) / real (length dat div 2))"
proof -
  have h: "0 < length dat div 2" using assms by simp
  have le: "int (length dat div 2) \<le> int (length dat)" by simp
  have d: "nat (int (length dat) - int (length dat div 2)) = length dat - length dat div 2"
    by simp
  show ?thesis
    using h
    by (simp add: getPitch3_def half_int for_loop_foldl [OF _ le] for_loop_foldl foldl_plus
        fdiv_def d del: of_nat_diff)
qed

lemma getPitch4_value:
  assumes "6 \<le> length dat"
  shows "getPitch4 dat (int (length dat))
           = Inr (last dat / 5
                  - sum_list (take (length dat - 5) dat) / real (length dat - 5))"
proof -
  have i5: "int (length dat) - 5 = int (length dat - 5)" using assms by simp
  have le: "int (length dat - 5) \<le> int (length dat)" by simp
  have ne: "drop (length dat - 5) dat \<noteq> []" using assms by simp
  have d: "nat (int (length dat) - int (length dat - 5)) = 5" using assms by simp
  have t: "take 5 (drop (length dat - 5) dat) = drop (length dat - 5) dat"
    using assms by simp
  have l: "last (drop (length dat - 5) dat) = last dat" using assms by simp
  show ?thesis
    using assms
    by (simp add: getPitch4_def i5 for_loop_foldl [OF _ le] for_loop_foldl foldl_plus
        foldl_assign [OF ne] fdiv_def d t l del: of_nat_diff)
qed

lemma sum_list_take_nth:
  "h \<le> length dat \<Longrightarrow> sum_list (take h dat) = (\<Sum>i = 0..<h. (dat :: real list) ! i)"
  by (simp add: sum_list_sum_nth min_absorb2)

lemma sum_list_drop_nth:
  "sum_list (drop h dat) = (\<Sum>i = h..<length dat. (dat :: real list) ! i)"
proof (cases "h \<le> length dat")
  case True
  have "sum_list (drop h dat) = (\<Sum>i = 0..<length dat - h. dat ! (h + i))"
    using True by (simp add: sum_list_sum_nth)
  also have "\<dots> = (\<Sum>i = h..<length dat. dat ! i)"
    using True sum.shift_bounds_nat_ivl [of "\<lambda>i. dat ! i" 0 h "length dat - h"]
    by (simp add: add.commute)
  finally show ?thesis .
next
  case False
  then show ?thesis by simp
qed

lemma for_each_fault: "for_each f dat i stop acc = Inl e \<Longrightarrow> e = OutOfBounds"
proof (induction f dat i stop acc rule: for_each.induct)
  case (1 f dat i stop acc)
  show ?case
  proof (cases "i \<noteq> stop")
    case False
    with 1(2) show ?thesis by (simp add: for_each.simps)
  next
    case True
    show ?thesis
    proof (cases "at_index dat i")
      case (Inl e')
      with True 1(2) have "e = e'" by (subst (asm) for_each.simps) simp
      with Inl show ?thesis by (simp add: at_index_def split: if_splits)
    next
      case (Inr v)
      with True 1(2) have "for_each f dat (i + 1) stop (f acc v) = Inl e"
        by (subst (asm) for_each.simps) simp
      with 1(1)[OF True Inr] show ?thesis .
    qed
  qed
qed

lemma zero_division_numerator:
  "getPitch1 dat n = Inl DivByZero \<Longrightarrow> n = 0"
  "getPitch2 dat n = Inl DivByZero \<Longrightarrow> n = 0"
  "getPitch3 dat n = Inl DivByZero \<Longrightarrow> n sdiv 2 = 0"
  "getPitch4 dat n = Inl DivByZero \<Longrightarrow> n - 5 = 0"
  by (auto simp: getPitch1_def getPitch2_def getPitch2_in_def getPitch3_def getPitch4_def
      fdiv_def fsqrt_def Let_def split: sum.splits if_splits
      dest: for_loop_fault for_each_fault)

section \<open>Rounding to \<open>double\<close>\<close>

lemma round_even_near:
  assumes "\<bar>r - of_int m\<bar> < 1 / 2"
  shows "round_even r = m"
proof (cases "of_int m \<le> r")
  case True
  with assms have "\<lfloor>r\<rfloor> = m" by (intro floor_unique) linarith+
  with assms True show ?thesis by (simp add: round_even_def Let_def)
next
  case False
  with assms have "of_int (m - 1) \<le> r" "r < of_int (m - 1) + 1" by simp_all
  then have "\<lfloor>r\<rfloor> = m - 1" by (rule floor_unique)
  with assms False show ?thesis by (auto simp: round_even_def Let_def)
qed

lemma round_even_nonneg: "0 \<le> r \<Longrightarrow> 0 \<le> round_even r"
  by (auto simp: round_even_def Let_def)

lemma rd_nonneg: "0 \<le> x \<Longrightarrow> 0 \<le> rd x"
  by (auto simp: rd_def Let_def sgn_if intro!: mult_nonneg_nonneg round_even_nonneg)

lemma rd_near:
  assumes "0 < x" and "expo x = e" and "\<bar>x / 2 powi (e - 52) - of_int m\<bar> < 1 / 2"
  shows "rd x = of_int m * 2 powi (e - 52)"
  using assms by (simp add: rd_def Let_def round_even_near)

lemma rd_between:
  assumes "0 < x" and "expo x = e"
    and "(of_int m - 1 / 2) * 2 powi (e - 52) < x"
    and "x < (of_int m + 1 / 2) * 2 powi (e - 52)"
  shows "rd x = of_int m * 2 powi (e - 52)"
proof -
  have u: "0 < (2::real) powi (e - 52)"
    by simp
  from assms(3) u have "of_int m - 1 / 2 < x / 2 powi (e - 52)"
    by (simp add: pos_less_divide_eq)
  moreover from assms(4) u have "x / 2 powi (e - 52) < of_int m + 1 / 2"
    by (simp add: pos_divide_less_eq)
  ultimately have "\<bar>x / 2 powi (e - 52) - of_int m\<bar> < 1 / 2"
    by linarith
  with assms(1,2) show ?thesis
    by (rule rd_near)
qed

lemma getPitch2_in_value:
  assumes "dat \<noteq> []"
  shows "getPitch2_in rnd dat (int (length dat)) =
           (let mean = rnd (foldl (\<lambda>s each. rnd (s + each)) 0 dat / real (length dat));
                q = rnd (foldl (\<lambda>sd each. rnd (sd + rnd ((rnd (each - mean)) ^ 2))) 0 dat
                         / real (length dat))
            in case fsqrt q of Inl e \<Rightarrow> Inl e | Inr r \<Rightarrow> Inr (rnd r))"
  using assms by (simp add: getPitch2_in_def for_each_foldl fdiv_def Let_def)

lemma foldl_rd_squares_nonneg:
  "0 \<le> acc \<Longrightarrow> 0 \<le> foldl (\<lambda>sd each. rd (sd + rd ((rd (each - mean)) ^ 2))) acc xs"
  by (induction xs arbitrary: acc) (simp_all add: rd_nonneg)

lemma getPitch2_nonneg:
  assumes "dat \<noteq> []"
  shows "\<exists>v. getPitch2 dat (int (length dat)) = Inr v \<and> 0 \<le> v"
proof -
  let ?mean = "rd (foldl (\<lambda>s each. rd (s + each)) 0 dat / real (length dat))"
  let ?q = "rd (foldl (\<lambda>sd each. rd (sd + rd ((rd (each - ?mean)) ^ 2))) 0 dat
                / real (length dat))"
  have "0 \<le> ?q"
    by (intro rd_nonneg divide_nonneg_nonneg foldl_rd_squares_nonneg) simp_all
  then show ?thesis
    using assms
    by (simp add: getPitch2_def getPitch2_in_value Let_def fsqrt_def not_less rd_nonneg)
qed

lemma getPitch2_exact_value:
  assumes "dat \<noteq> []"
  shows "getPitch2_in (\<lambda>x. x) dat (int (length dat))
           = Inr (sqrt (sum_list (map (\<lambda>x. (x - sum_list dat / real (length dat)) ^ 2) dat)
                         / real (length dat)))"
proof -
  have nonneg: "0 \<le> sum_list (map (\<lambda>x. (x - m) ^ 2) dat) / real (length dat)" for m :: real
    by (intro divide_nonneg_nonneg sum_list_nonneg) auto
  show ?thesis
    using assms nonneg
    by (simp add: getPitch2_in_value foldl_plus foldl_squares fsqrt_def not_less Let_def)
qed

lemmas rd_eval = rd_def expo_def up.simps down.simps round_even_def Let_def power_int_minus

text \<open>
  The frames \<open>[97, 0, 0]\<close> and \<open>[0, 0, 97]\<close>, operation by operation. Both orders have
  the sum 97 and the mean \<open>rd (97 / 3)\<close>; the squared deviations are accumulated in a
  different order and round differently.
\<close>

lemma r97_mean: "rd (97 / 3) = 4550512123488939 / 2 ^ 47"
  by (simp add: rd_eval)

lemma r97_dev_hi: "rd (97 - 4550512123488939 / 2 ^ 47) = 2275256061744469 / 2 ^ 45"
  by (simp add: rd_eval)

lemma r97_dev_lo: "rd (0 - 4550512123488939 / 2 ^ 47) = - (4550512123488939 / 2 ^ 47)"
  by (simp add: rd_eval)

lemma r97_sq_hi_exact: "((2275256061744469 / 2 ^ 45) :: real) ^ 2 = 5176790146504950930507452091961 / 2 ^ 90"
  by (simp add: power_divide)

lemma r97_sq_lo_exact: "(- (4550512123488939 / 2 ^ 47) :: real) ^ 2 = 20707160586019812823054055345721 / 2 ^ 94"
  by (simp add: power_divide)

lemma r97_sq_hi: "rd (5176790146504950930507452091961 / 2 ^ 90) = 4597913291441947 / 2 ^ 40"
  by (simp add: rd_eval)

lemma r97_sq_lo: "rd (20707160586019812823054055345721 / 2 ^ 94) = 4597913291441949 / 2 ^ 42"
  by (simp add: rd_eval)

lemma r97_first_acc1: "rd (0 + 4597913291441947 / 2 ^ 40) = 4597913291441947 / 2 ^ 40"
  by (simp add: rd_eval)

lemma r97_first_acc2: "rd (4597913291441947 / 2 ^ 40 + 4597913291441949 / 2 ^ 42) = 2873695807151217 / 2 ^ 39"
  by (simp add: rd_eval)

lemma r97_first_acc3: "rd (2873695807151217 / 2 ^ 39 + 4597913291441949 / 2 ^ 42) = 6896869937162921 / 2 ^ 40"
  by (simp add: rd_eval)

lemma r97_first_q: "rd (6896869937162921 / 2 ^ 40 / 3) = 4597913291441947 / 2 ^ 41"
  by (simp add: rd_eval)

lemma r97_last_acc1: "rd (0 + 4597913291441949 / 2 ^ 42) = 4597913291441949 / 2 ^ 42"
  by (simp add: rd_eval)

lemma r97_last_acc2: "rd (4597913291441949 / 2 ^ 42 + 4597913291441949 / 2 ^ 42) = 4597913291441949 / 2 ^ 41"
  by (simp add: rd_eval)

lemma r97_last_acc3: "rd (4597913291441949 / 2 ^ 41 + 4597913291441947 / 2 ^ 40) = 3448434968581461 / 2 ^ 39"
  by (simp add: rd_eval)

lemma r97_last_q: "rd (3448434968581461 / 2 ^ 39 / 3) = 1149478322860487 / 2 ^ 39"
  by (simp add: rd_eval)

lemma r97_first_sqrt: "rd (sqrt (4597913291441947 / 2 ^ 41)) = 100553061887207 / 2 ^ 41"
proof -
  let ?q = "4597913291441947 / 2 ^ 41 :: real"
  have "((12870791921562495 / 2 ^ 48) :: real) ^ 2 < ?q"
    by (simp add: power_divide)
  then have lo: "12870791921562495 / 2 ^ 48 < sqrt ?q"
    by (rule real_less_rsqrt)
  have "?q < ((12870791921562497 / 2 ^ 48) :: real) ^ 2"
    by (simp add: power_divide)
  then have hi: "sqrt ?q < 12870791921562497 / 2 ^ 48"
    by (intro real_less_lsqrt) simp_all
  have e: "expo (sqrt ?q) = 5"
    using lo hi by (simp add: expo_def up.simps)
  have pos: "0 < sqrt ?q"
    by simp
  have below: "(of_int 6435395960781248 - 1 / 2) * 2 powi (5 - 52) < sqrt ?q"
    using lo by (simp add: power_int_minus)
  have above: "sqrt ?q < (of_int 6435395960781248 + 1 / 2) * 2 powi (5 - 52)"
    using hi by (simp add: power_int_minus)
  show ?thesis
    using rd_between [OF pos e below above] by (simp add: power_int_minus)
qed

lemma r97_last_sqrt: "rd (sqrt (1149478322860487 / 2 ^ 39)) = 6435395960781249 / 2 ^ 47"
proof -
  let ?q = "1149478322860487 / 2 ^ 39 :: real"
  have "((12870791921562497 / 2 ^ 48) :: real) ^ 2 < ?q"
    by (simp add: power_divide)
  then have lo: "12870791921562497 / 2 ^ 48 < sqrt ?q"
    by (rule real_less_rsqrt)
  have "?q < ((12870791921562499 / 2 ^ 48) :: real) ^ 2"
    by (simp add: power_divide)
  then have hi: "sqrt ?q < 12870791921562499 / 2 ^ 48"
    by (intro real_less_lsqrt) simp_all
  have e: "expo (sqrt ?q) = 5"
    using lo hi by (simp add: expo_def up.simps)
  have pos: "0 < sqrt ?q"
    by simp
  have below: "(of_int 6435395960781249 - 1 / 2) * 2 powi (5 - 52) < sqrt ?q"
    using lo by (simp add: power_int_minus)
  have above: "sqrt ?q < (of_int 6435395960781249 + 1 / 2) * 2 powi (5 - 52)"
    using hi by (simp add: power_int_minus)
  show ?thesis
    using rd_between [OF pos e below above] by (simp add: power_int_minus)
qed

lemma getPitch2_97_first: "getPitch2 [97, 0, 0] 3 = Inr (100553061887207 / 2 ^ 41)"
proof -
  have ne: "[97, 0, 0] \<noteq> ([] :: real list)"
    by simp
  have len: "real (length ([97, 0, 0] :: real list)) = 3" "int (length ([97, 0, 0] :: real list)) = 3"
    by simp_all
  have s: "foldl (\<lambda>s each. rd (s + each)) 0 [97, 0, 0] = 97"
    by (simp add: rd_eval)
  have sd: "foldl (\<lambda>sd each. rd (sd + rd ((rd (each - 4550512123488939 / 2 ^ 47)) ^ 2))) 0 [97, 0, 0]
              = 6896869937162921 / 2 ^ 40"
    by (simp only: foldl.simps r97_dev_hi r97_dev_lo r97_sq_hi_exact r97_sq_lo_exact
        r97_sq_hi r97_sq_lo r97_first_acc1 r97_first_acc2 r97_first_acc3)
  have q: "\<not> (4597913291441947 / 2 ^ 41 :: real) < 0"
    by simp
  show ?thesis
    using getPitch2_in_value [OF ne, of rd]
    by (simp only: getPitch2_def len Let_def s r97_mean sd r97_first_q fsqrt_def q if_False
        sum.case r97_first_sqrt)
qed

lemma getPitch2_97_last: "getPitch2 [0, 0, 97] 3 = Inr (6435395960781249 / 2 ^ 47)"
proof -
  have ne: "[0, 0, 97] \<noteq> ([] :: real list)"
    by simp
  have len: "real (length ([0, 0, 97] :: real list)) = 3" "int (length ([0, 0, 97] :: real list)) = 3"
    by simp_all
  have s: "foldl (\<lambda>s each. rd (s + each)) 0 [0, 0, 97] = 97"
    by (simp add: rd_eval)
  have sd: "foldl (\<lambda>sd each. rd (sd + rd ((rd (each - 4550512123488939 / 2 ^ 47)) ^ 2))) 0 [0, 0, 97]
              = 3448434968581461 / 2 ^ 39"
    by (simp only: foldl.simps r97_dev_hi r97_dev_lo r97_sq_hi_exact r97_sq_lo_exact
        r97_sq_hi r97_sq_lo r97_last_acc1 r97_last_acc2 r97_last_acc3)
  have q: "\<not> (1149478322860487 / 2 ^ 39 :: real) < 0"
    by simp
  show ?thesis
    using getPitch2_in_value [OF ne, of rd]
    by (simp only: getPitch2_def len Let_def s r97_mean sd r97_last_q fsqrt_def q if_False
        sum.case r97_last_sqrt)
qed

section \<open>The paths of the pipeline\<close>

lemma errCode_at_simps:
  "errCode_at 0 = Inr ''success''"
  "errCode_at 1000 = Inr ''Error : file not found''"
  "errCode_at 1002 = Inr ''Error : file is not on correct format''"
  "errCode_at 3000 = Inr ''Error : Memory Allocation Error''"
  by (simp_all add: errCode_at_def errCode_def)

lemma file_not_found_path:
  "\<not> fopen_ok w file \<Longrightarrow>
   internal_PitchAnalyzer w file js
     = Inr (1000, js\<lparr>status := 1000, comment := ''Error : file not found''\<rparr>)"
  by (simp add: internal_PitchAnalyzer_def errCode_at_simps)

lemma format_error_path:
  assumes "fopen_ok w file" and "GetAudioLength w file = 0 \<or> GetAudioLength w file = - 1"
  shows "internal_PitchAnalyzer w file js
           = Inr (1002, js\<lparr>status := 1002,
                             comment := ''Error : file is not on correct format''\<rparr>)"
  using assms
  by (auto simp: internal_PitchAnalyzer_def wavFile_ctor_def Let_def errCode_at_simps)

lemma allocation_failure_path:
  assumes "fopen_ok w file"
    and "GetAudioLength w file < - 1
         \<or> 0 < GetAudioLength w file
            \<and> (\<not> wav_alloc_ok w file \<or> frames_of w file < 0 \<or> \<not> f0_alloc_ok w file)"
  shows "internal_PitchAnalyzer w file js
           = Inr (3000, js\<lparr>status := 3000,
                             comment := ''Error : Memory Allocation Error'' @ bad_alloc_what w\<rparr>)"
proof -
  obtain rate bits samples where rd: "wavread w file = (rate, bits, samples)"
    by (cases "wavread w file") auto
  then have fr: "GetSamplesForHarvest w rate (GetAudioLength w file) (frame_period w)
                   = frames_of w file"
    by (simp add: frames_of_def)
  show ?thesis
    using assms rd fr
    by (auto simp: internal_PitchAnalyzer_def wavFile_ctor_def f0_ctor_def Let_def
        errCode_at_simps)
qed

lemma success_path:
  assumes "fopen_ok w file" and "0 < GetAudioLength w file" and "wav_alloc_ok w file"
    and "0 \<le> frames_of w file" and "f0_alloc_ok w file"
  shows "internal_PitchAnalyzer w file js
           = Inr (0, js\<lparr>pitch1 := ieee_value (stray w file)
                                      (getPitch1 (f0_of w file) (frames_of w file)),
                          pitch2 := ieee_value (stray w file)
                                      (getPitch2 (f0_of w file) (frames_of w file)),
                          pitch3 := ieee_value (stray w file)
                                      (getPitch3 (f0_of w file) (frames_of w file)),
                          pitch4 := ieee_value (stray w file)
                                      (getPitch4 (f0_of w file) (frames_of w file)),
                          comment := ''success''\<rparr>)"
proof -
  obtain rate bits samples where rd: "wavread w file = (rate, bits, samples)"
    by (cases "wavread w file") auto
  then have fr: "GetSamplesForHarvest w rate (GetAudioLength w file) (frame_period w)
                   = frames_of w file"
    by (simp add: frames_of_def)
  define wav where "wav = \<lparr>fileName = file, fs = rate, nbit = bits,
      length_wav = GetAudioLength w file,
      buf = map samples [0..<nat (GetAudioLength w file)]\<rparr>"
  define f where "f = \<lparr>f0 = replicate (nat (frames_of w file)) (0::real),
      temporalPossition = replicate (nat (frames_of w file)) (0::real),
      numOfFrame = frames_of w file\<rparr>"
  have w1: "wavFile_ctor w file js = Ret wav js"
    using assms(2,3) rd by (auto simp: wavFile_ctor_def wav_def Let_def)
  have fr': "GetSamplesForHarvest w (fs wav) (length_wav wav) (frame_period w)
               = frames_of w file"
    by (simp add: wav_def fr)
  have w2: "f0_ctor w file (frames_of w file) js = Ret f js"
    using assms(4,5) by (auto simp: f0_ctor_def f_def)
  have dat: "f0 (run_Harvest w wav f) = f0_of w file"
    by (simp add: run_Harvest_def Let_def f_def wav_def f0_of_def rd)
  have nf: "numOfFrame (run_Harvest w wav f) = frames_of w file"
    by (simp add: run_Harvest_def Let_def f_def)
  show ?thesis
    using assms(1)
    by (simp add: internal_PitchAnalyzer_def w1 w2 fr' Let_def dat nf errCode_at_simps)
qed

lemma string_copy_fresh:
  "string_copy x (c # replicate (length x) c) (length x) = Inr (x @ [c])"
proof -
  have "drop n (c # replicate n c) = [c]" for n
    by (induction n) simp_all
  then show ?thesis by (simp add: string_copy_def Let_def)
qed

lemma PitchAnalyzer2_of_internal:
  "internal_PitchAnalyzer w file js = Inr (err, js') \<Longrightarrow>
   PitchAnalyzer2 w file js = Inr (Ptr (json_dump w js' @ [CHR 0x00]), js')"
  by (simp add: PitchAnalyzer2_def Let_def string_copy_fresh)

lemma example_frames:
  "frames_of example_world ''ok.wav'' = 6"
  "f0_of example_world ''ok.wav'' = [100, 100, 100, 100, 100, 100]"
proof -
  show fr: "frames_of example_world ''ok.wav'' = 6"
    by (simp add: frames_of_def example_world_def)
  have six: "[0..<6] = [0, 1, 2, 3, 4, 5]"
    by (simp add: upt_rec)
  show "f0_of example_world ''ok.wav'' = [100, 100, 100, 100, 100, 100]"
    unfolding f0_of_def fr by (simp add: example_world_def six)
qed

lemma example_getPitch2: "getPitch2 [100, 100, 100, 100, 100, 100] 6 = Inr 0"
proof -
  have ne: "[100, 100, 100, 100, 100, 100] \<noteq> ([] :: real list)"
    by simp
  have len: "real (length ([100, 100, 100, 100, 100, 100] :: real list)) = 6"
    "int (length ([100, 100, 100, 100, 100, 100] :: real list)) = 6"
    by simp_all
  have s: "foldl (\<lambda>s each. rd (s + each)) 0 [100, 100, 100, 100, 100, 100] = 600"
    by (simp add: rd_eval)
  have mean: "rd (600 / 6) = 100"
    by (simp add: rd_eval)
  have z: "rd (100 - 100) = 0" "(0::real) ^ 2 = 0" "rd 0 = 0" "rd (0 + 0) = 0" "rd (0 / 6) = 0"
    by (simp_all add: rd_def)
  have sd: "foldl (\<lambda>sd each. rd (sd + rd ((rd (each - 100)) ^ 2))) 0
              [100, 100, 100, 100, 100, 100] = 0"
    by (simp only: foldl.simps z)
  have q: "\<not> (0::real) < 0" "sqrt 0 = 0"
    by simp_all
  show ?thesis
    using getPitch2_in_value [OF ne, of rd]
    by (simp only: getPitch2_def len Let_def s mean sd z fsqrt_def q if_False sum.case)
qed

lemma example_statistics:
  "getPitch1 [100, 100, 100, 100, 100, 100] 6 = Inr 100"
  "getPitch3 [100, 100, 100, 100, 100, 100] 6 = Inr 0"
  "getPitch4 [100, 100, 100, 100, 100, 100] 6 = Inr (- 80)"
  using getPitch1_value [of "[100, 100, 100, 100, 100, 100]"]
    getPitch3_value [of "[100, 100, 100, 100, 100, 100]"]
    getPitch4_value [of "[100, 100, 100, 100, 100, 100]"]
  by simp_all

lemma success_path_writes:
  assumes "internal_PitchAnalyzer w file js = Inr (0, js')"
  shows "status js' = status js \<and> comment js' = ''success''"
  using assms
  by (auto simp: internal_PitchAnalyzer_def wavFile_ctor_def f0_ctor_def Let_def
      errCode_at_simps split: if_splits sum.splits outcome.splits prod.splits)

lemma example_five_frames:
  "frames_of (example_world\<lparr>GetAudioLength := \<lambda>file. 320\<rparr>) ''ok.wav'' = 5"
  "getPitch4 (f0_of (example_world\<lparr>GetAudioLength := \<lambda>file. 320\<rparr>) ''ok.wav'') 5
     = Inl DivByZero"
proof -
  show fr: "frames_of (example_world\<lparr>GetAudioLength := \<lambda>file. 320\<rparr>) ''ok.wav'' = 5"
    by (simp add: frames_of_def example_world_def)
  show "getPitch4 (f0_of (example_world\<lparr>GetAudioLength := \<lambda>file. 320\<rparr>) ''ok.wav'') 5
          = Inl DivByZero"
    by (simp add: getPitch4_def for_loop.simps [of _ _ 0 0] fdiv_def)
qed

section \<open>The claims\<close>

text \<open>
  C1 (Pitch4, tail contrast). Claimed: for a frame count of at least 6, Pitch4 is the
  average of the frames \<open>[0, F-5)\<close> minus a fifth of the last frame, only the last
  value of the tail loop surviving. The documentation of \<open>getPitch4\<close> gives the same
  order (\<open>@return (the average of f0[0 .. max-5]) - (the average of f0[max-5 .. max])\<close>),
  but the function returns \<open>sum2 - sum1\<close>, the tail term minus the average
  (\<open>getPitch4_value\<close>). On the frames \<open>[1, 0, 0, 0, 0, 0]\<close> the code returns \<open>-1\<close>,
  where the claimed expression is \<open>1\<close>.
\<close>

theorem getPitch4_sign_evaluation:
  "getPitch4 [1, 0, 0, 0, 0, 0] 6 = Inr (- 1) \<and>
   sum_list (take (6 - 5) [1, 0, 0, 0, 0, 0 :: real]) / real (6 - 5)
     - last [1, 0, 0, 0, 0, 0] / 5 = 1"
  using getPitch4_value [of "[1, 0, 0, 0, 0, 0]"] by simp

text \<open>
  C2 (result object on the success path). Claimed: at the end of every successful call
  the result object holds the status 0 and the four statistics. The success path of
  \<open>__PitchAnalyzer\<close> writes the four pitch fields and the comment \<open>success\<close>, and
  returns 0, but it never writes the status, which every failure path does write. A
  successful call that follows a failed one therefore leaves the status 1000 of the
  failed call in the object (in general: \<open>success_path_writes\<close>).
\<close>

theorem success_after_failure_keeps_status:
  "internal_PitchAnalyzer example_world ''missing.wav''
     \<lparr>status = 0, comment = [], pitch1 = Finite 0, pitch2 = Finite 0, pitch3 = Finite 0,
      pitch4 = Finite 0\<rparr>
   = Inr (1000, \<lparr>status = 1000, comment = ''Error : file not found'',
                  pitch1 = Finite 0, pitch2 = Finite 0, pitch3 = Finite 0,
                  pitch4 = Finite 0\<rparr>)
   \<and>
   internal_PitchAnalyzer example_world ''ok.wav''
     \<lparr>status = 1000, comment = ''Error : file not found'',
      pitch1 = Finite 0, pitch2 = Finite 0, pitch3 = Finite 0, pitch4 = Finite 0\<rparr>
   = Inr (0, \<lparr>status = 1000, comment = ''success'',
               pitch1 = Finite 100, pitch2 = Finite 0, pitch3 = Finite 0,
               pitch4 = Finite (- 80)\<rparr>)"
proof -
  have nofile: "\<not> fopen_ok example_world ''missing.wav''"
    by (simp add: example_world_def)
  have ok: "fopen_ok example_world ''ok.wav''" "0 < GetAudioLength example_world ''ok.wav''"
    "wav_alloc_ok example_world ''ok.wav''" "0 \<le> frames_of example_world ''ok.wav''"
    "f0_alloc_ok example_world ''ok.wav''"
    by (simp_all add: example_frames) (simp_all add: example_world_def)
  show ?thesis
    by (simp add: file_not_found_path [OF nofile] success_path [OF ok] example_frames
        example_statistics example_getPitch2)
qed

text \<open>
  C3 (Pitch3, halves delta). For a frame count \<open>F\<close> of at least 2, Pitch3 is the sum of
  the frames \<open>F div 2 .. F-1\<close> divided by \<open>F div 2\<close>, minus the sum of the frames
  \<open>0 .. F div 2 - 1\<close> divided by \<open>F div 2\<close>; for odd \<open>F\<close> the second sum ranges over
  \<open>F div 2 + 1\<close> frames, one more than its denominator.
\<close>

theorem getPitch3_halves:
  assumes "2 \<le> length dat"
  shows "getPitch3 dat (int (length dat))
           = Inr ((\<Sum>i = length dat div 2..<length dat. dat ! i) / real (length dat div 2)
                  - (\<Sum>i = 0..<length dat div 2. dat ! i) / real (length dat div 2))
         \<and> (odd (length dat) \<longrightarrow>
              card {length dat div 2..<length dat} = length dat div 2 + 1)"
proof -
  have "odd (length dat) \<longrightarrow> length dat - length dat div 2 = length dat div 2 + 1"
    by presburger
  then show ?thesis
    using getPitch3_value [OF assms]
    by (simp add: sum_list_drop_nth sum_list_take_nth)
qed

theorem getPitch3_halves_witness:
  "2 \<le> length [10, 20, 30, 40, 50 :: real] \<and>
   getPitch3 [10, 20, 30, 40, 50] 5 = Inr 45 \<and> card {5 div 2..<5::nat} = 5 div 2 + 1"
  using getPitch3_halves [of "[10, 20, 30, 40, 50]"] by simp

text \<open>
  C4 (Pitch1, mean). For a frame count \<open>F > 0\<close>, Pitch1 is the sum of the non-zero
  frames divided by the total frame count \<open>F\<close>; when every frame is zero it is 0.
\<close>

theorem getPitch1_mean:
  assumes "0 < length dat"
  shows "getPitch1 dat (int (length dat))
           = Inr (sum_list (filter (\<lambda>v. v \<noteq> 0) dat) / real (length dat))
         \<and> ((\<forall>v \<in> set dat. v = 0) \<longrightarrow> getPitch1 dat (int (length dat)) = Inr 0)"
proof -
  have "\<forall>v \<in> set dat. v = 0 \<Longrightarrow> filter (\<lambda>v. v \<noteq> 0) dat = []"
    by (simp add: filter_empty_conv)
  then show ?thesis
    using assms getPitch1_value [of dat] by auto
qed

theorem getPitch1_mean_witness:
  "getPitch1 [0, 6, 0] 3 = Inr 2 \<and> getPitch1 [0, 0, 0] 3 = Inr 0"
  using getPitch1_mean [of "[0, 6, 0]"] getPitch1_mean [of "[0, 0, 0]"] by simp

text \<open>
  C5 (division by the frame count in Pitch1). Claimed: the division is guarded, so that
  with a frame count of 0 no division by zero is reached. \<open>getPitch1\<close> has no guard:
  with the frame count 0 the loop is skipped and \<open>sum / dat_length\<close> divides by zero.
\<close>

theorem getPitch1_unguarded: "getPitch1 [] 0 = Inl DivByZero"
  by (simp add: getPitch1_def for_loop.simps fdiv_def)

text \<open>
  C5, as the code has it: evaluating Pitch1 reaches the division by zero exactly when
  the frame count is 0; for every other frame count the division's error branch is not
  taken.
\<close>

theorem getPitch1_div_by_zero_iff:
  "getPitch1 dat dat_length = Inl DivByZero \<longleftrightarrow> dat_length = 0"
proof (cases "for_loop (\<lambda>s v. if v = 0 then s else s + v) dat 0 dat_length 0")
  case (Inl e)
  then have "e = OutOfBounds" by (rule for_loop_fault)
  moreover from Inl have "dat_length \<noteq> 0" by (auto simp: for_loop.simps)
  ultimately show ?thesis using Inl by (simp add: getPitch1_def)
next
  case (Inr s)
  then show ?thesis by (simp add: getPitch1_def fdiv_def)
qed

text \<open>
  C6 (file not found). For every path that cannot be opened, the analysis call sets the
  status to 1000 and the comment to the catalog entry for 1000,
  \<open>Error : file not found\<close>, and returns 1000; so does \<open>PitchAnalyzer\<close>, given a
  destination buffer that holds the serialized result.
\<close>

theorem file_not_found_status:
  assumes "\<not> fopen_ok w file"
  shows "\<exists>js'. internal_PitchAnalyzer w file js = Inr (1000, js')
           \<and> status js' = 1000
           \<and> comment js' = ''Error : file not found''
           \<and> map_of errCode 1000 = Some (comment js')
           \<and> (length (json_dump w js') \<le> length dst \<longrightarrow>
                (\<exists>dst'. PitchAnalyzer w file dst js = Inr (1000, dst', js')))"
  using assms
  by (simp add: file_not_found_path errCode_def PitchAnalyzer_def Let_def string_copy_def)

theorem file_not_found_status_witness:
  "\<not> fopen_ok example_world ''missing.wav'' \<and>
   (\<exists>js'. internal_PitchAnalyzer example_world ''missing.wav''
            \<lparr>status = 0, comment = [], pitch1 = Finite 1, pitch2 = Finite 2,
             pitch3 = Finite 3, pitch4 = Finite 4\<rparr>
            = Inr (1000, js')
         \<and> status js' = 1000 \<and> comment js' = ''Error : file not found''
         \<and> (\<exists>dst'. PitchAnalyzer example_world ''missing.wav'' ''xxxx''
            \<lparr>status = 0, comment = [], pitch1 = Finite 1, pitch2 = Finite 2,
             pitch3 = Finite 3, pitch4 = Finite 4\<rparr>
            = Inr (1000, dst', js')))"
proof -
  have h: "\<not> fopen_ok example_world ''missing.wav''"
    by (simp add: example_world_def)
  have l: "length (json_dump example_world js') \<le> length ''xxxx''" for js'
    by (simp add: example_world_def)
  show ?thesis
    using h l file_not_found_status [OF h, of
        "\<lparr>status = 0, comment = [], pitch1 = Finite 1, pitch2 = Finite 2,
          pitch3 = Finite 3, pitch4 = Finite 4\<rparr>"
        "''xxxx''"]
    by auto
qed

text \<open>
  C7 (Pitch2 under reordering). Claimed: for a frame count of at least 1, Pitch2 of
  every permutation of the frames equals Pitch2 of the frames, and Pitch2 is not
  negative. In the \<open>double\<close> arithmetic of \<open>getPitch2\<close> the accumulated sums depend on
  the order of the frames: \<open>[97, 0, 0]\<close> gives \<open>45.726238516730064\<close>, its permutation
  \<open>[0, 0, 97]\<close> gives \<open>45.72623851673007\<close>, one unit in the last place apart.
\<close>

theorem getPitch2_reorder_counterexample:
  "mset [0, 0, 97] = mset [97, 0, 0 :: real] \<and>
   getPitch2 [97, 0, 0] 3 = Inr (100553061887207 / 2 ^ 41) \<and>
   getPitch2 [0, 0, 97] 3 = Inr (6435395960781249 / 2 ^ 47) \<and>
   getPitch2 [0, 0, 97] 3 \<noteq> getPitch2 [97, 0, 0] 3"
  by (simp add: getPitch2_97_first getPitch2_97_last)

text \<open>
  C7, as the code has it: for a frame count of at least 1, Pitch2 of the frames and
  Pitch2 of every permutation of them are not negative; the two are equal when the
  computation of \<open>getPitch2\<close> is carried out in exact arithmetic, and need not be equal
  in the arithmetic of \<open>double\<close>.
\<close>

theorem getPitch2_nonneg_exact_permutation:
  assumes "mset dat' = mset dat" and "1 \<le> length dat"
  shows "(\<exists>v. getPitch2 dat (int (length dat)) = Inr v \<and> 0 \<le> v)
         \<and> (\<exists>v'. getPitch2 dat' (int (length dat')) = Inr v' \<and> 0 \<le> v')
         \<and> getPitch2_in (\<lambda>x. x) dat' (int (length dat'))
             = getPitch2_in (\<lambda>x. x) dat (int (length dat))"
proof -
  have len: "length dat' = length dat"
    using assms(1) by (rule mset_eq_length)
  have s: "sum_list dat' = sum_list dat"
    using assms(1) by (metis sum_mset_sum_list)
  have sq: "sum_list (map g dat') = sum_list (map g dat)" for g :: "real \<Rightarrow> real"
    using assms(1) by (metis mset_map sum_mset_sum_list)
  have ne: "dat \<noteq> []" "dat' \<noteq> []" using assms(2) len by auto
  show ?thesis
    using getPitch2_nonneg [OF ne(1)] getPitch2_nonneg [OF ne(2)]
      getPitch2_exact_value [OF ne(1)] getPitch2_exact_value [OF ne(2)]
    by (simp add: len s sq)
qed

theorem getPitch2_nonneg_exact_permutation_witness:
  "mset [0, 0, 97] = mset [97, 0, 0 :: real] \<and> 1 \<le> length [97, 0, 0 :: real] \<and>
   (\<exists>v. getPitch2 [97, 0, 0] 3 = Inr v \<and> 0 \<le> v) \<and>
   (\<exists>v'. getPitch2 [0, 0, 97] 3 = Inr v' \<and> 0 \<le> v') \<and>
   getPitch2_in (\<lambda>x. x) [0, 0, 97] 3 = getPitch2_in (\<lambda>x. x) [97, 0, 0] 3"
  using getPitch2_nonneg_exact_permutation [of "[0, 0, 97]" "[97, 0, 0]"] by simp

text \<open>
  C8 (\<open>PitchAnalyzer2\<close> always returns a buffer). For every world, every path and every
  prior result object, \<open>PitchAnalyzer2\<close> returns the address of a buffer, not the null
  pointer, and the buffer holds the serialized result object that \<open>__PitchAnalyzer\<close>
  has left, terminated by a zero byte. On the three failure paths (the file does not
  open: 1000; the audio length is 0 or -1: 1002; an allocation fails or has a negative
  size: 3000) that object carries the error code in its status field and the catalog
  text in its comment. On the success path, whatever the frame count, it carries the
  four statistics and the comment \<open>success\<close>. The returned value has the same form on
  all four paths: only the result object inside the buffer tells a failure.
\<close>

theorem PitchAnalyzer2_returns_buffer:
  "\<exists>err js'.
     internal_PitchAnalyzer w file js = Inr (err, js')
     \<and> PitchAnalyzer2 w file js = Inr (Ptr (json_dump w js' @ [CHR 0x00]), js')
     \<and> (\<not> fopen_ok w file \<longrightarrow>
          err = 1000
          \<and> js' = js\<lparr>status := 1000, comment := ''Error : file not found''\<rparr>)
     \<and> (fopen_ok w file \<and> (GetAudioLength w file = 0 \<or> GetAudioLength w file = - 1) \<longrightarrow>
          err = 1002
          \<and> js' = js\<lparr>status := 1002, comment := ''Error : file is not on correct format''\<rparr>)
     \<and> (fopen_ok w file
          \<and> (GetAudioLength w file < - 1
              \<or> 0 < GetAudioLength w file
                 \<and> (\<not> wav_alloc_ok w file \<or> frames_of w file < 0
                     \<or> \<not> f0_alloc_ok w file)) \<longrightarrow>
          err = 3000
          \<and> js' = js\<lparr>status := 3000,
                       comment := ''Error : Memory Allocation Error'' @ bad_alloc_what w\<rparr>)
     \<and> (fopen_ok w file \<and> 0 < GetAudioLength w file \<and> wav_alloc_ok w file
          \<and> 0 \<le> frames_of w file \<and> f0_alloc_ok w file \<longrightarrow>
          err = 0
          \<and> js' = js\<lparr>pitch1 := ieee_value (stray w file)
                                   (getPitch1 (f0_of w file) (frames_of w file)),
                       pitch2 := ieee_value (stray w file)
                                   (getPitch2 (f0_of w file) (frames_of w file)),
                       pitch3 := ieee_value (stray w file)
                                   (getPitch3 (f0_of w file) (frames_of w file)),
                       pitch4 := ieee_value (stray w file)
                                   (getPitch4 (f0_of w file) (frames_of w file)),
                       comment := ''success''\<rparr>)"
proof -
  consider (nofile) "\<not> fopen_ok w file"
    | (format) "fopen_ok w file" "GetAudioLength w file = 0 \<or> GetAudioLength w file = - 1"
    | (alloc) "fopen_ok w file"
        "GetAudioLength w file < - 1
         \<or> 0 < GetAudioLength w file
            \<and> (\<not> wav_alloc_ok w file \<or> frames_of w file < 0 \<or> \<not> f0_alloc_ok w file)"
    | (success) "fopen_ok w file" "0 < GetAudioLength w file" "wav_alloc_ok w file"
        "0 \<le> frames_of w file" "f0_alloc_ok w file"
    by linarith
  then show ?thesis
  proof cases
    case nofile
    from file_not_found_path [OF this, of js] PitchAnalyzer2_of_internal [OF file_not_found_path [OF this, of js]]
    show ?thesis using nofile by simp
  next
    case format
    from format_error_path [OF this, of js] PitchAnalyzer2_of_internal [OF format_error_path [OF this, of js]]
    show ?thesis using format by auto
  next
    case alloc
    from allocation_failure_path [OF this, of js]
      PitchAnalyzer2_of_internal [OF allocation_failure_path [OF this, of js]]
    show ?thesis using alloc by auto
  next
    case success
    from success_path [OF this, of js] PitchAnalyzer2_of_internal [OF success_path [OF this, of js]]
    show ?thesis using success by auto
  qed
qed

theorem PitchAnalyzer2_returns_buffer_witness:
  "(\<exists>js'. PitchAnalyzer2 example_world ''ok.wav''
            \<lparr>status = 0, comment = [], pitch1 = Finite 0, pitch2 = Finite 0,
             pitch3 = Finite 0, pitch4 = Finite 0\<rparr>
          = Inr (Ptr (json_dump example_world js' @ [CHR 0x00]), js')
        \<and> comment js' = ''success'' \<and> pitch4 js' = Finite (- 80))
   \<and> (\<exists>js'. PitchAnalyzer2 example_world ''missing.wav''
            \<lparr>status = 0, comment = [], pitch1 = Finite 0, pitch2 = Finite 0,
             pitch3 = Finite 0, pitch4 = Finite 0\<rparr>
          = Inr (Ptr (json_dump example_world js' @ [CHR 0x00]), js')
        \<and> status js' = 1000)
   \<and> (\<exists>js'. PitchAnalyzer2 (example_world\<lparr>GetAudioLength := \<lambda>file. 0\<rparr>) ''ok.wav''
            \<lparr>status = 0, comment = [], pitch1 = Finite 0, pitch2 = Finite 0,
             pitch3 = Finite 0, pitch4 = Finite 0\<rparr>
          = Inr (Ptr (json_dump example_world js' @ [CHR 0x00]), js')
        \<and> status js' = 1002)
   \<and> (\<exists>js'. PitchAnalyzer2 (example_world\<lparr>wav_alloc_ok := \<lambda>file. False\<rparr>) ''ok.wav''
            \<lparr>status = 0, comment = [], pitch1 = Finite 0, pitch2 = Finite 0,
             pitch3 = Finite 0, pitch4 = Finite 0\<rparr>
          = Inr (Ptr (json_dump example_world js' @ [CHR 0x00]), js')
        \<and> status js' = 3000)
   \<and> (\<exists>js'. PitchAnalyzer2 (example_world\<lparr>GetAudioLength := \<lambda>file. 320\<rparr>) ''ok.wav''
            \<lparr>status = 0, comment = [], pitch1 = Finite 0, pitch2 = Finite 0,
             pitch3 = Finite 0, pitch4 = Finite 0\<rparr>
          = Inr (Ptr (json_dump example_world js' @ [CHR 0x00]), js')
        \<and> comment js' = ''success'' \<and> pitch4 js' = NaN)"
proof -
  let ?js = "\<lparr>status = 0, comment = [], pitch1 = Finite 0, pitch2 = Finite 0,
              pitch3 = Finite 0, pitch4 = Finite 0\<rparr>"
  have ok: "fopen_ok example_world ''ok.wav''" "0 < GetAudioLength example_world ''ok.wav''"
    "wav_alloc_ok example_world ''ok.wav''" "f0_alloc_ok example_world ''ok.wav''"
    "\<not> fopen_ok example_world ''missing.wav''"
    by (simp_all add: example_world_def)
  have a: "\<exists>js'. PitchAnalyzer2 example_world ''ok.wav'' ?js
            = Inr (Ptr (json_dump example_world js' @ [CHR 0x00]), js')
          \<and> comment js' = ''success'' \<and> pitch4 js' = Finite (- 80)"
    using PitchAnalyzer2_returns_buffer [of example_world "''ok.wav''" ?js] ok
    by (auto simp: example_frames example_statistics)
  have b: "\<exists>js'. PitchAnalyzer2 example_world ''missing.wav'' ?js
            = Inr (Ptr (json_dump example_world js' @ [CHR 0x00]), js')
          \<and> status js' = 1000"
    using PitchAnalyzer2_returns_buffer [of example_world "''missing.wav''" ?js] ok
    by auto
  have c: "\<exists>js'. PitchAnalyzer2 (example_world\<lparr>GetAudioLength := \<lambda>file. 0\<rparr>) ''ok.wav'' ?js
            = Inr (Ptr (json_dump example_world js' @ [CHR 0x00]), js')
          \<and> status js' = 1002"
    using PitchAnalyzer2_returns_buffer
      [of "example_world\<lparr>GetAudioLength := \<lambda>file. 0\<rparr>" "''ok.wav''" ?js] ok
    by auto
  have d: "\<exists>js'. PitchAnalyzer2 (example_world\<lparr>wav_alloc_ok := \<lambda>file. False\<rparr>) ''ok.wav'' ?js
            = Inr (Ptr (json_dump example_world js' @ [CHR 0x00]), js')
          \<and> status js' = 3000"
    using PitchAnalyzer2_returns_buffer
      [of "example_world\<lparr>wav_alloc_ok := \<lambda>file. False\<rparr>" "''ok.wav''" ?js] ok
    by auto
  have e: "\<exists>js'. PitchAnalyzer2 (example_world\<lparr>GetAudioLength := \<lambda>file. 320\<rparr>) ''ok.wav'' ?js
            = Inr (Ptr (json_dump example_world js' @ [CHR 0x00]), js')
          \<and> comment js' = ''success'' \<and> pitch4 js' = NaN"
    using PitchAnalyzer2_returns_buffer
      [of "example_world\<lparr>GetAudioLength := \<lambda>file. 320\<rparr>" "''ok.wav''" ?js] ok
    by (auto simp: example_five_frames)
  from a b c d e show ?thesis
    by blast
qed

text \<open>
  C9 (frame of the file-not-found path). When the file cannot be opened, the call writes
  the status and the comment of the result object and nothing else: the four pitch
  fields keep the values they had before the call.
\<close>

theorem file_not_found_frame:
  assumes "\<not> fopen_ok w file"
  shows "\<exists>rc js'. internal_PitchAnalyzer w file js = Inr (rc, js')
           \<and> pitch1 js' = pitch1 js \<and> pitch2 js' = pitch2 js
           \<and> pitch3 js' = pitch3 js \<and> pitch4 js' = pitch4 js
           \<and> js' = js\<lparr>status := status js', comment := comment js'\<rparr>"
  using assms by (simp add: file_not_found_path)

theorem file_not_found_frame_witness:
  "\<not> fopen_ok example_world ''missing.wav'' \<and>
   (\<exists>rc js'. internal_PitchAnalyzer example_world ''missing.wav''
            \<lparr>status = 0, comment = ''success'', pitch1 = Finite 1, pitch2 = Finite 2,
             pitch3 = Finite 3, pitch4 = Finite 4\<rparr>
            = Inr (rc, js')
         \<and> pitch1 js' = Finite 1 \<and> pitch2 js' = Finite 2 \<and> pitch3 js' = Finite 3
         \<and> pitch4 js' = Finite 4)"
proof -
  have h: "\<not> fopen_ok example_world ''missing.wav''"
    by (simp add: example_world_def)
  show ?thesis
    using h file_not_found_frame [OF h, of
        "\<lparr>status = 0, comment = ''success'', pitch1 = Finite 1, pitch2 = Finite 2,
          pitch3 = Finite 3, pitch4 = Finite 4\<rparr>"]
    by auto
qed

text \<open>
  C10 (safety of Pitch3 and Pitch4). On an array of \<open>F\<close> frames, \<open>getPitch3\<close> runs
  without a fault (every read in bounds, every denominator non-zero) when \<open>F \<ge> 2\<close>,
  and \<open>getPitch4\<close> when \<open>F \<ge> 6\<close>. Below these bounds they fault: \<open>getPitch3\<close>
  divides by \<open>F div 2 = 0\<close>; \<open>getPitch4\<close> divides by \<open>F - 5 = 0\<close> when \<open>F = 5\<close> and
  starts its second loop at the negative index \<open>F - 5\<close> when \<open>F < 5\<close>.
\<close>

theorem getPitch34_safety:
  "(2 \<le> length dat \<longrightarrow> (\<exists>v. getPitch3 dat (int (length dat)) = Inr v)) \<and>
   (6 \<le> length dat \<longrightarrow> (\<exists>v. getPitch4 dat (int (length dat)) = Inr v)) \<and>
   (length dat < 2 \<longrightarrow> getPitch3 dat (int (length dat)) = Inl DivByZero) \<and>
   (length dat = 5 \<longrightarrow> getPitch4 dat (int (length dat)) = Inl DivByZero) \<and>
   (length dat < 5 \<longrightarrow> getPitch4 dat (int (length dat)) = Inl OutOfBounds)"
proof (intro conjI impI)
  assume "2 \<le> length dat"
  then show "\<exists>v. getPitch3 dat (int (length dat)) = Inr v"
    by (simp add: getPitch3_value)
next
  assume "6 \<le> length dat"
  then show "\<exists>v. getPitch4 dat (int (length dat)) = Inr v"
    by (simp add: getPitch4_value)
next
  assume "length dat < 2"
  then have "length dat div 2 = 0" by simp
  then show "getPitch3 dat (int (length dat)) = Inl DivByZero"
    by (simp add: getPitch3_def half_int for_loop.simps [of _ _ 0 0] fdiv_def)
next
  assume "length dat = 5"
  then show "getPitch4 dat (int (length dat)) = Inl DivByZero"
    by (simp add: getPitch4_def for_loop.simps [of _ _ 0 0] fdiv_def)
next
  assume a: "length dat < 5"
  then have neg: "int (length dat) - 5 < 0" by simp
  have first: "for_loop (\<lambda>sum1 v. sum1 + v) dat 0 (int (length dat) - 5) 0 = Inr 0"
    using neg by (subst for_loop.simps) simp
  have second: "for_loop (\<lambda>sum2 v. v) dat (int (length dat) - 5) (int (length dat)) 0
                  = Inl OutOfBounds"
    using neg by (intro for_loop_negative_start) simp_all
  show "getPitch4 dat (int (length dat)) = Inl OutOfBounds"
    using neg by (simp add: getPitch4_def first second fdiv_def)
qed

theorem getPitch34_safety_witness:
  "(\<exists>v. getPitch3 [1, 2, 3, 4, 5, 6] 6 = Inr v) \<and>
   (\<exists>v. getPitch4 [1, 2, 3, 4, 5, 6] 6 = Inr v) \<and>
   getPitch3 [1] 1 = Inl DivByZero \<and>
   getPitch4 [1, 2, 3, 4, 5] 5 = Inl DivByZero \<and>
   getPitch4 [1] 1 = Inl OutOfBounds"
  using getPitch34_safety [of "[1, 2, 3, 4, 5, 6]"] getPitch34_safety [of "[1, 2, 3, 4, 5]"]
    getPitch34_safety [of "[1]"]
  by simp

end
